theory Spec2Isabelle
  imports Main "HOL-Library.Word"
begin

section \<open>UxPlay beacon for macOS (mac_beacon.py)\<close>

text \<open>
  The script reads the port that a running UxPlay wrote to \<^verbatim>\<open>~/.uxplay.ble\<close>, picks
  an IPv4 address of the host, packs both into a manufacturer-data payload and starts
  a Bluetooth LE advertisement. The embedding follows the three source functions
  \<^verbatim>\<open>get_best_ip\<close>, \<^verbatim>\<open>get_uxplay_port\<close> and
  \<^verbatim>\<open>BeaconDelegate.start_advertising\<close>.

  Bytes are \<open>8 word\<close>, Python integers are \<open>int\<close>, Python \<^verbatim>\<open>str\<close> values are
  \<open>string\<close>. What the script reads from its environment (the outcome of the two
  network probes, the content of the port file) is an argument of the model. A Python
  exception is a value of type \<open>exn\<close>.
\<close>

type_synonym byte = "8 word"

datatype exn = OSError | ValueError | UnicodeDecodeError | StructError

subsection \<open>\<^verbatim>\<open>get_best_ip\<close>\<close>

text \<open>\<^verbatim>\<open>s.startswith(p)\<close>\<close>

definition startswith :: "string \<Rightarrow> string \<Rightarrow> bool" where
  "startswith s p = (take (length p) s = p)"

text \<open>
  Attempt 1 (source lines 24 to 32). The argument is what
  \<^verbatim>\<open>socket(); connect(("8.8.8.8", 80)); getsockname()[0]\<close> gives: the local address, or
  the exception one of the calls raised. \<open>None\<close> is falling through to attempt 2.
\<close>

definition attempt1 :: "exn + string \<Rightarrow> string option" where
  "attempt1 probe =
     (case probe of
        Inl e \<Rightarrow> None
      | Inr ip \<Rightarrow> if ip \<noteq> ''127.0.0.1'' then Some ip else None)"

text \<open>The first loop over \<^verbatim>\<open>ip_list\<close> (source lines 41 to 47).\<close>

fun filter_useful :: "string list \<Rightarrow> string option" where
  "filter_useful [] = None"
| "filter_useful (ip # ip_list) =
     (if startswith ip ''192.168.'' then Some ip
      else if startswith ip ''10.'' then Some ip
      else if startswith ip ''172.'' then Some ip
      else filter_useful ip_list)"

text \<open>The second loop over \<^verbatim>\<open>ip_list\<close> (source lines 50 to 52).\<close>

fun first_non_loopback :: "string list \<Rightarrow> string option" where
  "first_non_loopback [] = None"
| "first_non_loopback (ip # ip_list) =
     (if ip \<noteq> ''127.0.0.1'' then Some ip else first_non_loopback ip_list)"

text \<open>
  Attempt 2 (source lines 35 to 54). The argument is what
  \<^verbatim>\<open>socket.gethostbyname_ex(socket.gethostname())[2]\<close> gives: the list of addresses,
  or the exception raised.
\<close>

definition attempt2 :: "exn + string list \<Rightarrow> string option" where
  "attempt2 probe =
     (case probe of
        Inl e \<Rightarrow> None
      | Inr ip_list \<Rightarrow>
          (case filter_useful ip_list of
             Some ip \<Rightarrow> Some ip
           | None \<Rightarrow> first_non_loopback ip_list))"

definition get_best_ip :: "exn + string \<Rightarrow> exn + string list \<Rightarrow> string" where
  "get_best_ip probe_a probe_b =
     (case attempt1 probe_a of
        Some ip \<Rightarrow> ip
      | None \<Rightarrow>
          (case attempt2 probe_b of
             Some ip \<Rightarrow> ip
           | None \<Rightarrow> ''127.0.0.1''))"

subsection \<open>\<^verbatim>\<open>get_uxplay_port\<close>\<close>

text \<open>\<^verbatim>\<open>bs.split(sep)[0]\<close> for a one-byte separator: the bytes before its first occurrence.\<close>

definition split_first :: "byte \<Rightarrow> byte list \<Rightarrow> byte list" where
  "split_first sep bs = takeWhile (\<lambda>b. b \<noteq> sep) bs"

text \<open>\<^verbatim>\<open>content.split(b'\n')[0].split(b'\x00')[0]\<close>\<close>

definition text_chunk :: "byte list \<Rightarrow> byte list" where
  "text_chunk content = split_first 0x00 (split_first 0x0A content)"

text \<open>\<^verbatim>\<open>bs.decode('ascii')\<close> raises on a byte above 0x7F.\<close>

definition decode_ascii :: "byte list \<Rightarrow> exn + string" where
  "decode_ascii bs =
     (if list_all (\<lambda>b. b < 0x80) bs then Inr (map (\<lambda>b. char_of (unat b)) bs)
      else Inl UnicodeDecodeError)"

text \<open>
  \<^verbatim>\<open>s.isdigit()\<close> on a string of ASCII characters: not empty, and every character is
  one of 0 to 9.
\<close>

definition isdigit :: "string \<Rightarrow> bool" where
  "isdigit s = (s \<noteq> [] \<and> list_all (\<lambda>c. 48 \<le> (of_char c :: nat) \<and> (of_char c :: nat) \<le> 57) s)"

text \<open>
  \<^verbatim>\<open>int(s)\<close> for a string of decimal digits. Python integers are unbounded, but
  CPython's \<^verbatim>\<open>int\<close> raises \<^verbatim>\<open>ValueError\<close> on a string of more than
  \<^verbatim>\<open>sys.int_info.default_max_str_digits\<close> digits, leading zeros counted; the script
  leaves that limit at its default, 4300.
\<close>

definition max_str_digits :: nat where
  "max_str_digits = 4300"

definition py_int :: "string \<Rightarrow> exn + int" where
  "py_int s =
     (if length s > max_str_digits then Inl ValueError
      else Inr (foldl (\<lambda>acc c. 10 * acc + (of_char c - 48)) 0 s))"

text \<open>
  The text parsing (source lines 67 to 73): \<open>None\<close> is leaving the \<^verbatim>\<open>try\<close> block
  without a \<^verbatim>\<open>return\<close>, the exception swallowed.
\<close>

definition text_parse :: "byte list \<Rightarrow> int option" where
  "text_parse content =
     (case decode_ascii (text_chunk content) of
        Inl e \<Rightarrow> None
      | Inr port_str \<Rightarrow>
          if isdigit port_str then
            (case py_int port_str of
               Inl e \<Rightarrow> None
             | Inr port \<Rightarrow> Some port)
          else None)"

text \<open>\<^verbatim>\<open>struct.unpack(">H", bs)[0]\<close> raises unless \<^verbatim>\<open>bs\<close> has two bytes.\<close>

definition unpack_H :: "byte list \<Rightarrow> exn + int" where
  "unpack_H bs =
     (case bs of
        [hi, lo] \<Rightarrow> Inr (uint hi * 256 + uint lo)
      | _ \<Rightarrow> Inl StructError)"

text \<open>The binary parsing (source lines 76 to 82).\<close>

definition binary_parse :: "byte list \<Rightarrow> int option" where
  "binary_parse content =
     (if length content \<ge> 2 then
        (case unpack_H (take 2 content) of
           Inl e \<Rightarrow> None
         | Inr port \<Rightarrow> if 1024 \<le> port \<and> port \<le> 65535 then Some port else None)
      else None)"

text \<open>What the script prints.\<close>

datatype message =
    NotFound string \<comment> \<open>\<^verbatim>\<open>Error: {BLE_FILE_PATH} not found. Run UxPlay first.\<close>\<close>
  | CouldNotParse \<comment> \<open>\<^verbatim>\<open>Error: Could not parse port.\<close>\<close>
  | FailedToGetPort \<comment> \<open>\<^verbatim>\<open>Failed to get port. Exiting.\<close>\<close>
  | Broadcasting string int \<comment> \<open>\<^verbatim>\<open>Broadcasting: UxPlay @ {ip_str}:{port}\<close>\<close>
  | BeaconActive \<comment> \<open>\<^verbatim>\<open>Beacon active. (Ctrl+C to stop)\<close>\<close>

text \<open>
  The first argument is \<^verbatim>\<open>BLE_FILE_PATH\<close>, the second the file there: \<open>None\<close> when
  \<^verbatim>\<open>os.path.exists\<close> is false, else its content. The result is the lines printed and
  the value returned, \<open>None\<close> for Python's \<^verbatim>\<open>None\<close>.
\<close>

definition get_uxplay_port :: "string \<Rightarrow> byte list option \<Rightarrow> message list \<times> int option" where
  "get_uxplay_port BLE_FILE_PATH file =
     (case file of
        None \<Rightarrow> ([NotFound BLE_FILE_PATH], None)
      | Some content \<Rightarrow>
          (case text_parse content of
             Some port \<Rightarrow> ([], Some port)
           | None \<Rightarrow>
               (case binary_parse content of
                  Some port \<Rightarrow> ([], Some port)
                | None \<Rightarrow> ([CouldNotParse], None))))"

subsection \<open>\<^verbatim>\<open>socket.inet_aton\<close> and \<^verbatim>\<open>struct.pack\<close>\<close>

text \<open>
  \<^verbatim>\<open>socket.inet_aton\<close> is the C library's \<^verbatim>\<open>inet_aton\<close>. The model follows
  inet(3): the forms \<^verbatim>\<open>a.b.c.d\<close>, \<^verbatim>\<open>a.b.c\<close>, \<^verbatim>\<open>a.b\<close> and \<^verbatim>\<open>a\<close>, the last
  part filling the remaining bytes; each part decimal, octal with a leading \<^verbatim>\<open>0\<close> or
  hexadecimal with a leading \<^verbatim>\<open>0x\<close>; an ASCII white space after the last part ends
  the address. Python raises \<^verbatim>\<open>ValueError\<close> on a string with a null character and
  \<^verbatim>\<open>OSError\<close> when the library rejects the string.
\<close>

fun splitc :: "char \<Rightarrow> string \<Rightarrow> string list" where
  "splitc sep [] = [[]]"
| "splitc sep (c # cs) =
     (if c = sep then [] # splitc sep cs
      else (case splitc sep cs of
              [] \<Rightarrow> [[c]]
            | p # ps \<Rightarrow> (c # p) # ps))"

definition digit_of :: "char \<Rightarrow> nat option" where
  "digit_of c =
     (let n = (of_char c :: nat) in
      if 48 \<le> n \<and> n \<le> 57 then Some (n - 48)
      else if 97 \<le> n \<and> n \<le> 102 then Some (n - 87)
      else if 65 \<le> n \<and> n \<le> 70 then Some (n - 55)
      else None)"

fun number :: "nat \<Rightarrow> nat \<Rightarrow> string \<Rightarrow> nat option" where
  "number base val [] = Some val"
| "number base val (c # cs) =
     (case digit_of c of
        None \<Rightarrow> None
      | Some d \<Rightarrow> if d < base then number base (val * base + d) cs else None)"

definition parse_part :: "string \<Rightarrow> nat option" where
  "parse_part s =
     (case s of
        [] \<Rightarrow> None
      | c # cs \<Rightarrow>
          if c = CHR ''0'' then
            (case cs of
               [] \<Rightarrow> Some 0
             | x # xs \<Rightarrow>
                 if x = CHR ''x'' \<or> x = CHR ''X'' then (if xs = [] then None else number 16 0 xs)
                 else number 8 0 cs)
          else number 10 0 s)"

definition isspace :: "char \<Rightarrow> bool" where
  "isspace c = (let n = (of_char c :: nat) in n = 32 \<or> (9 \<le> n \<and> n \<le> 13))"

text \<open>The four bytes of a 32-bit value, most significant first.\<close>

definition be32 :: "nat \<Rightarrow> byte list" where
  "be32 v = [of_nat (v div 2 ^ 24), of_nat (v div 2 ^ 16), of_nat (v div 2 ^ 8), of_nat v]"

definition inet_aton :: "string \<Rightarrow> exn + byte list" where
  "inet_aton cp =
     (if CHR 0x00 \<in> set cp then Inl ValueError
      else
        (case those (map parse_part (splitc CHR ''.'' (takeWhile (\<lambda>c. \<not> isspace c) cp))) of
           Some [a] \<Rightarrow> if a < 2 ^ 32 then Inr (be32 a) else Inl OSError
         | Some [a, b] \<Rightarrow>
             if a \<le> 255 \<and> b < 2 ^ 24 then Inr (be32 (a * 2 ^ 24 + b)) else Inl OSError
         | Some [a, b, c] \<Rightarrow>
             if a \<le> 255 \<and> b \<le> 255 \<and> c < 2 ^ 16 then Inr (be32 (a * 2 ^ 24 + b * 2 ^ 16 + c))
             else Inl OSError
         | Some [a, b, c, d] \<Rightarrow>
             if a \<le> 255 \<and> b \<le> 255 \<and> c \<le> 255 \<and> d \<le> 255
             then Inr (be32 (a * 2 ^ 24 + b * 2 ^ 16 + c * 2 ^ 8 + d))
             else Inl OSError
         | _ \<Rightarrow> Inl OSError))"

text \<open>\<^verbatim>\<open>struct.pack(">H", v)\<close> raises \<^verbatim>\<open>struct.error\<close> outside 0 to 65535.\<close>

definition pack_H :: "int \<Rightarrow> exn + byte list" where
  "pack_H v =
     (if 0 \<le> v \<and> v \<le> 65535 then Inr [word_of_int (v div 256), word_of_int (v mod 256)]
      else Inl StructError)"

subsection \<open>\<^verbatim>\<open>BeaconDelegate.start_advertising\<close>\<close>

text \<open>
  The payload (source lines 101 to 107), from \<^verbatim>\<open>ip_str\<close> and \<^verbatim>\<open>port\<close>. The
  statements run in the source's order, so a bad address raises before a bad port does.
\<close>

definition full_payload :: "string \<Rightarrow> int \<Rightarrow> exn + byte list" where
  "full_payload ip_str port =
     (case pack_H 0x004C of
        Inl e \<Rightarrow> Inl e
      | Inr company_id \<Rightarrow>
          (let prefix = [0x09, 0x08]; magic = [0x13, 0x30] in
           case inet_aton ip_str of
             Inl e \<Rightarrow> Inl e
           | Inr ip_bytes \<Rightarrow>
               (case pack_H port of
                  Inl e \<Rightarrow> Inl e
                | Inr port_bytes \<Rightarrow>
                    Inr (company_id @ prefix @ magic @ ip_bytes @ port_bytes))))"

text \<open>
  How a call of \<^verbatim>\<open>start_advertising\<close> ends: \<^verbatim>\<open>sys.exit\<close> with a status, an
  exception that nothing catches, or \<^verbatim>\<open>manager.startAdvertising_\<close> called with the
  local name and the manufacturer data.
\<close>

datatype outcome = Exit int | Raised exn | Advertising string "byte list"

text \<open>
  Python's \<^verbatim>\<open>not port\<close> is true of \<^verbatim>\<open>None\<close> and of 0: these are the first two
  branches.
\<close>

definition start_advertising ::
  "string \<Rightarrow> byte list option \<Rightarrow> exn + string \<Rightarrow> exn + string list \<Rightarrow> message list \<times> outcome" where
  "start_advertising BLE_FILE_PATH file probe_a probe_b =
     (case get_uxplay_port BLE_FILE_PATH file of
        (out, None) \<Rightarrow> (out @ [FailedToGetPort], Exit 1)
      | (out, Some port) \<Rightarrow>
          if port = 0 then (out @ [FailedToGetPort], Exit 1)
          else
            (let ip_str = get_best_ip probe_a probe_b;
                 out = out @ [Broadcasting ip_str port] in
             case full_payload ip_str port of
               Inl e \<Rightarrow> (out, Raised e)
             | Inr payload \<Rightarrow> (out @ [BeaconActive], Advertising ''UxPlay'' payload)))"

subsection \<open>Notions of the specification\<close>

text \<open>
  A well-formed dotted quad is four decimal octets separated by dots, each octet written
  without leading zeros, as the network stack prints an address. \<open>decimal n\<close> is that
  rendering of a number.
\<close>

fun decimal :: "nat \<Rightarrow> string" where
  "decimal n =
     (if n < 10 then [char_of (48 + n)]
      else decimal (n div 10) @ [char_of (48 + n mod 10)])"

declare decimal.simps [simp del]

definition dotted_quad :: "nat \<Rightarrow> nat \<Rightarrow> nat \<Rightarrow> nat \<Rightarrow> string" where
  "dotted_quad a b c d = decimal a @ ''.'' @ decimal b @ ''.'' @ decimal c @ ''.'' @ decimal d"

text \<open>
  The ASCII bytes of a list of decimal digits, and the integer the digits denote: digit
  \<open>i\<close> of \<open>n\<close> counts \<open>10 ^ (n - 1 - i)\<close>.
\<close>

definition digit_bytes :: "nat list \<Rightarrow> byte list" where
  "digit_bytes ds = map (\<lambda>d. of_nat (48 + d)) ds"

definition denoted :: "nat list \<Rightarrow> int" where
  "denoted ds = (\<Sum>i<length ds. int (ds ! i) * 10 ^ (length ds - 1 - i))"

text \<open>
  An address in the notation of inet(3). A number in C notation is hexadecimal after
  \<^verbatim>\<open>0x\<close> or \<^verbatim>\<open>0X\<close>, octal after another leading \<^verbatim>\<open>0\<close>, decimal otherwise;
  it has at least one digit, all of its base, and its value is positional. An address
  has no null character and, up to its first white space, is one to four numbers
  separated by dots, each but the last at most 255, the last one below
  \<open>256 ^ (5 - n)\<close> for \<open>n\<close> numbers.
\<close>

definition digit_in :: "nat \<Rightarrow> char \<Rightarrow> bool" where
  "digit_in base c = (case digit_of c of None \<Rightarrow> False | Some d \<Rightarrow> d < base)"

definition digit_value :: "char \<Rightarrow> nat" where
  "digit_value c = (case digit_of c of None \<Rightarrow> 0 | Some d \<Rightarrow> d)"

definition positional :: "nat \<Rightarrow> string \<Rightarrow> nat" where
  "positional base s = (\<Sum>i<length s. digit_value (s ! i) * base ^ (length s - 1 - i))"

definition c_notation :: "string \<Rightarrow> nat \<times> string" where
  "c_notation s =
     (if take 2 s = ''0x'' \<or> take 2 s = ''0X'' then (16, drop 2 s)
      else if take 1 s = ''0'' \<and> 1 < length s then (8, drop 1 s)
      else (10, s))"

definition c_number :: "string \<Rightarrow> bool" where
  "c_number s = (case c_notation s of (base, ds) \<Rightarrow> ds \<noteq> [] \<and> list_all (digit_in base) ds)"

definition c_value :: "string \<Rightarrow> nat" where
  "c_value s = (case c_notation s of (base, ds) \<Rightarrow> positional base ds)"

definition inet_address :: "string \<Rightarrow> bool" where
  "inet_address s =
     (CHR 0x00 \<notin> set s \<and>
      (let parts = splitc CHR ''.'' (takeWhile (\<lambda>c. \<not> isspace c) s) in
       length parts \<le> 4 \<and> list_all c_number parts
       \<and> list_all (\<lambda>p. c_value p \<le> 255) (butlast parts)
       \<and> c_value (last parts) < 256 ^ (5 - length parts)))"

section \<open>The payload\<close>

subsection \<open>Decimal octets are read back by \<open>inet_aton\<close>\<close>

lemma of_char_digit: "d < 10 \<Longrightarrow> (of_char (char_of (48 + d :: nat)) :: nat) = 48 + d"
  by (simp add: of_char_of)

lemma digit_of_digit: "d < 10 \<Longrightarrow> digit_of (char_of (48 + d)) = Some d"
  by (simp add: digit_of_def of_char_digit)

lemma number_append:
  "number base v (s @ t) = (case number base v s of None \<Rightarrow> None | Some w \<Rightarrow> number base w t)"
  by (induction s arbitrary: v) (auto split: option.splits)

lemma number_decimal: "number 10 0 (decimal n) = Some n"
proof (induction n rule: decimal.induct)
  case (1 n)
  show ?case
  proof (cases "n < 10")
    case True
    then show ?thesis by (subst decimal.simps) (simp add: digit_of_digit)
  next
    case False
    with 1 have "number 10 0 (decimal (n div 10)) = Some (n div 10)" by simp
    with False show ?thesis
      by (subst decimal.simps) (simp add: number_append digit_of_digit)
  qed
qed

lemma decimal_chars:
  "c \<in> set (decimal n) \<Longrightarrow> 48 \<le> (of_char c :: nat) \<and> (of_char c :: nat) \<le> 57"
proof (induction n rule: decimal.induct)
  case (1 n)
  show ?case
  proof (cases "n < 10")
    case True
    with 1(2) show ?thesis by (subst (asm) decimal.simps) (simp add: of_char_digit)
  next
    case False
    with 1 show ?thesis
      by (subst (asm) (2) decimal.simps) (auto simp add: of_char_digit)
  qed
qed

lemma decimal_hd: "0 < n \<Longrightarrow> \<exists>c cs. decimal n = c # cs \<and> c \<noteq> CHR ''0''"
proof (induction n rule: decimal.induct)
  case (1 n)
  show ?case
  proof (cases "n < 10")
    case True
    have "char_of (48 + n) \<noteq> CHR ''0''"
    proof
      assume "char_of (48 + n) = CHR ''0''"
      then have "(of_char (char_of (48 + n)) :: nat) = of_char CHR ''0''" by simp
      with True 1(2) show False by (simp add: of_char_digit)
    qed
    with True show ?thesis by (subst decimal.simps) simp
  next
    case False
    with 1 obtain c cs where "decimal (n div 10) = c # cs" "c \<noteq> CHR ''0''" by fastforce
    with False show ?thesis by (subst decimal.simps) simp
  qed
qed

lemma parse_part_decimal: "parse_part (decimal n) = Some n"
proof (cases "n = 0")
  case True
  have "decimal 0 = ''0''" by code_simp
  with True show ?thesis by (simp add: parse_part_def)
next
  case False
  then obtain c cs where *: "decimal n = c # cs" "c \<noteq> CHR ''0''" using decimal_hd by blast
  have "number 10 0 (decimal n) = Some n" by (rule number_decimal)
  with * show ?thesis by (simp add: parse_part_def)
qed

lemma decimal_plain:
  assumes "c \<in> set (decimal n)"
  shows "c \<noteq> CHR ''.''" and "\<not> isspace c" and "c \<noteq> CHR 0x00"
proof -
  have r: "48 \<le> (of_char c :: nat)" using decimal_chars [OF assms] by simp
  show "c \<noteq> CHR ''.''" using r by auto
  show "\<not> isspace c" using r decimal_chars [OF assms] by (auto simp add: isspace_def Let_def)
  show "c \<noteq> CHR 0x00" using r by auto
qed

lemma splitc_none: "sep \<notin> set s \<Longrightarrow> splitc sep s = [s]"
  by (induction s) auto

lemma splitc_append: "sep \<notin> set s \<Longrightarrow> splitc sep (s @ sep # t) = s # splitc sep t"
  by (induction s) auto

lemma splitc_dotted_quad:
  "splitc CHR ''.'' (dotted_quad a b c d) = [decimal a, decimal b, decimal c, decimal d]"
proof -
  have n: "CHR ''.'' \<notin> set (decimal k)" for k using decimal_plain(1) by blast
  have "splitc CHR ''.'' (decimal d) = [decimal d]" by (rule splitc_none [OF n])
  moreover have "splitc CHR ''.'' (decimal k @ CHR ''.'' # t) = decimal k # splitc CHR ''.'' t" for k t
    by (rule splitc_append [OF n])
  ultimately show ?thesis by (simp add: dotted_quad_def)
qed

lemma be32_quad:
  assumes "a \<le> 255" "b \<le> 255" "c \<le> 255" "d \<le> 255"
  shows "be32 (a * 2 ^ 24 + b * 2 ^ 16 + c * 2 ^ 8 + d) = [of_nat a, of_nat b, of_nat c, of_nat d]"
proof -
  have 1: "(a * 2 ^ 24 + b * 2 ^ 16 + c * 2 ^ 8 + d) div 2 ^ 24 = a" using assms by simp
  have 2: "(a * 2 ^ 24 + b * 2 ^ 16 + c * 2 ^ 8 + d) div 2 ^ 16 = a * 2 ^ 8 + b" using assms by simp
  have 3: "(a * 2 ^ 24 + b * 2 ^ 16 + c * 2 ^ 8 + d) div 2 ^ 8 = a * 2 ^ 16 + b * 2 ^ 8 + c"
    using assms by simp
  have w: "(256 :: byte) = 0" "(65536 :: byte) = 0"  "(16777216 :: byte) = 0" by simp_all
  show ?thesis
    unfolding be32_def 1 2 3 by (simp add: w)
qed

lemma inet_aton_dotted_quad:
  assumes "a \<le> 255" "b \<le> 255" "c \<le> 255" "d \<le> 255"
  shows "inet_aton (dotted_quad a b c d) = Inr [of_nat a, of_nat b, of_nat c, of_nat d]"
proof -
  let ?cp = "dotted_quad a b c d"
  have chars: "x \<in> set ?cp \<Longrightarrow> x = CHR ''.'' \<or> (\<exists>k. x \<in> set (decimal k))" for x
    by (auto simp add: dotted_quad_def)
  have nul: "CHR 0x00 \<notin> set ?cp" using chars decimal_plain(3) by fastforce
  have "\<not> isspace x" if "x \<in> set ?cp" for x
    using chars [OF that] decimal_plain(2) by (auto simp add: isspace_def)
  then have tw: "takeWhile (\<lambda>c. \<not> isspace c) ?cp = ?cp" by (simp add: takeWhile_eq_all_conv)
  have parts: "those (map parse_part (splitc CHR ''.'' ?cp)) = Some [a, b, c, d]"
    by (simp add: splitc_dotted_quad parse_part_decimal)
  show ?thesis
    unfolding inet_aton_def tw parts using nul assms be32_quad [OF assms] by simp
qed

lemma length_be32: "length (be32 v) = 4"
  by (simp add: be32_def)

lemma inet_aton_length: "inet_aton cp = Inr bs \<Longrightarrow> length bs = 4"
  unfolding inet_aton_def
  by (auto simp add: length_be32 split: if_splits option.splits list.splits)

lemma full_payload_Inr:
  assumes "full_payload ip_str port = Inr payload"
  shows "length payload = 12 \<and> pack_H port = Inr (drop 10 payload)"
proof -
  from assms obtain ip_bytes port_bytes where i: "inet_aton ip_str = Inr ip_bytes"
    and pb: "pack_H port = Inr port_bytes"
    and pl: "payload = [0x00, 0x4C] @ [0x09, 0x08] @ [0x13, 0x30] @ ip_bytes @ port_bytes"
    by (auto simp add: full_payload_def pack_H_def split: sum.splits if_splits)
  from i have "length ip_bytes = 4" by (rule inet_aton_length)
  moreover from pb have "length port_bytes = 2" by (auto simp add: pack_H_def split: if_splits)
  ultimately show ?thesis using pl pb by simp
qed

subsection \<open>The addresses that \<open>inet_aton\<close> accepts\<close>

lemma positional_Cons:
  "positional base (c # ds) = digit_value c * base ^ length ds + positional base ds"
  unfolding positional_def by (simp add: sum.lessThan_Suc_shift del: sum.lessThan_Suc)

lemma number_positional:
  "number base v ds =
     (if list_all (digit_in base) ds then Some (v * base ^ length ds + positional base ds) else None)"
proof (induction ds arbitrary: v)
  case Nil
  show ?case by (simp add: positional_def)
next
  case (Cons c ds)
  show ?case
  proof (cases "digit_of c")
    case None
    then show ?thesis by (simp add: digit_in_def)
  next
    case (Some d)
    then show ?thesis
      by (simp add: Cons.IH digit_in_def digit_value_def positional_Cons algebra_simps)
  qed
qed

lemma parse_part_c: "parse_part p = (if c_number p then Some (c_value p) else None)"
proof (cases p)
  case Nil
  then show ?thesis by (simp add: parse_part_def c_number_def c_notation_def)
next
  case (Cons c cs)
  show ?thesis
  proof (cases "c = CHR ''0''")
    case False
    with Cons show ?thesis
      by (simp add: parse_part_def c_number_def c_value_def c_notation_def number_positional)
  next
    case zero: True
    show ?thesis
    proof (cases cs)
      case Nil
      with Cons zero show ?thesis
        by (simp add: parse_part_def c_number_def c_value_def c_notation_def positional_def
            digit_in_def digit_value_def digit_of_def)
    next
      case (Cons x xs)
      with \<open>p = c # cs\<close> zero show ?thesis
        by (simp add: parse_part_def c_number_def c_value_def c_notation_def number_positional)
    qed
  qed
qed

lemma those_parse_part:
  "those (map parse_part ps) = (if list_all c_number ps then Some (map c_value ps) else None)"
  by (induction ps) (simp_all add: parse_part_c)

lemma splitc_not_Nil: "splitc sep s \<noteq> []"
  by (induction s) (auto split: list.splits)

lemma parts_cases:
  assumes "ps \<noteq> []"
  obtains a where "ps = [a]" | a b where "ps = [a, b]" | a b c where "ps = [a, b, c]"
  | a b c d where "ps = [a, b, c, d]" | a b c d e r where "ps = a # b # c # d # e # r"
  using assms
  by (cases ps; cases "tl ps"; cases "tl (tl ps)"; cases "tl (tl (tl ps))";
      cases "tl (tl (tl (tl ps)))") auto

lemma inet_aton_address:
  "(\<exists>bs. inet_aton s = Inr bs) \<longleftrightarrow> inet_address s"
proof (cases "CHR 0x00 \<in> set s")
  case True
  then show ?thesis by (simp add: inet_aton_def inet_address_def)
next
  case False
  define ps where "ps = splitc CHR ''.'' (takeWhile (\<lambda>c. \<not> isspace c) s)"
  have "ps \<noteq> []" unfolding ps_def by (rule splitc_not_Nil)
  then show ?thesis
  proof (cases ps rule: parts_cases)
    case (1 a)
    with False show ?thesis
      unfolding inet_aton_def inet_address_def ps_def [symmetric] those_parse_part by auto
  next
    case (2 a b)
    with False show ?thesis
      unfolding inet_aton_def inet_address_def ps_def [symmetric] those_parse_part by auto
  next
    case (3 a b c)
    with False show ?thesis
      unfolding inet_aton_def inet_address_def ps_def [symmetric] those_parse_part by auto
  next
    case (4 a b c d)
    with False show ?thesis
      unfolding inet_aton_def inet_address_def ps_def [symmetric] those_parse_part by auto
  next
    case (5 a b c d e r)
    with False show ?thesis
      unfolding inet_aton_def inet_address_def ps_def [symmetric] those_parse_part by auto
  qed
qed

lemma inet_aton_error:
  "inet_aton s = Inl e \<Longrightarrow> e = OSError \<or> e = ValueError"
  unfolding inet_aton_def
  by (auto split: if_splits option.splits list.splits)

lemmas address_defs =
  inet_address_def c_number_def c_value_def c_notation_def positional_def digit_in_def
  digit_value_def digit_of_def isspace_def

lemma full_payload_address_error:
  "(full_payload ip_str port = Inl OSError \<or> full_payload ip_str port = Inl ValueError)
     \<longleftrightarrow> \<not> inet_address ip_str"
proof (cases "inet_aton ip_str")
  case (Inl e)
  then have "\<not> inet_address ip_str" using inet_aton_address [of ip_str] by simp
  moreover from Inl have "e = OSError \<or> e = ValueError" by (rule inet_aton_error)
  ultimately show ?thesis using Inl by (auto simp add: full_payload_def pack_H_def)
next
  case (Inr bs)
  then have "inet_address ip_str" using inet_aton_address [of ip_str] by auto
  with Inr show ?thesis by (auto simp add: full_payload_def pack_H_def)
qed

lemma full_payload_address_ok:
  assumes "0 \<le> port" "port \<le> 65535"
  shows "(\<exists>payload. full_payload ip_str port = Inr payload) \<longleftrightarrow> inet_address ip_str"
  using assms inet_aton_address [of ip_str]
  by (cases "inet_aton ip_str") (auto simp add: full_payload_def pack_H_def)

lemmas payload_defs =
  full_payload_def inet_aton_def parse_part_def digit_of_def isspace_def be32_def pack_H_def

subsection \<open>The bytes of the payload\<close>

text \<open>
  C1 (as amended). For the address 192.168.1.42 and the port 7000 the payload is the twelve
  bytes 00 4C 09 08 13 30 C0 A8 01 2A 1B 58: the company id 0x004C is packed big-endian
  (\<^verbatim>\<open>struct.pack(">H", 0x004C)\<close>), so its bytes are 00 4C, then the prefix 09 08, the
  magic 13 30, the four octets of the address and the port 0x1B58 big-endian.
\<close>

theorem full_payload_example:
  "full_payload ''192.168.1.42'' 7000 =
     Inr [0x00, 0x4C, 0x09, 0x08, 0x13, 0x30, 0xC0, 0xA8, 0x01, 0x2A, 0x1B, 0x58]"
  by (simp add: payload_defs)

text \<open>
  C1 as the specification states it, with the company id bytes in the order 4C 00, does
  not hold.
\<close>

theorem full_payload_example_not_4C_00:
  "full_payload ''192.168.1.42'' 7000 \<noteq>
     Inr [0x4C, 0x00, 0x09, 0x08, 0x13, 0x30, 0xC0, 0xA8, 0x01, 0x2A, 0x1B, 0x58]"
  by (simp add: payload_defs)

text \<open>
  C9. For every well-formed dotted quad \<open>a.b.c.d\<close> and every port from 0 to 65535 the
  payload is twelve bytes, in this order: the two bytes of the company id, the two of the
  prefix, the two of the magic marker, the four octets of the address, the two bytes of
  the port, high byte first.
\<close>

theorem full_payload_layout:
  assumes "a \<le> 255" "b \<le> 255" "c \<le> 255" "d \<le> 255" and "0 \<le> port" "port \<le> 65535"
  shows "full_payload (dotted_quad a b c d) port =
           Inr ([0x00, 0x4C] @ [0x09, 0x08] @ [0x13, 0x30]
                @ [of_nat a, of_nat b, of_nat c, of_nat d]
                @ [word_of_int (port div 256), word_of_int (port mod 256)])
         \<and> (\<exists>p. full_payload (dotted_quad a b c d) port = Inr p \<and> length p = 12)"
proof -
  have "inet_aton (dotted_quad a b c d) = Inr [of_nat a, of_nat b, of_nat c, of_nat d]"
    using assms(1-4) by (rule inet_aton_dotted_quad)
  with assms(5,6) show ?thesis by (simp add: full_payload_def pack_H_def)
qed

theorem full_payload_layout_witness:
  "full_payload ''10.0.0.7'' 8080 =
     Inr [0x00, 0x4C, 0x09, 0x08, 0x13, 0x30, 10, 0, 0, 7, 0x1F, 0x90]
   \<and> length [0x00, 0x4C, 0x09, 0x08, 0x13, 0x30, 10, 0, 0, 7, 0x1F, 0x90 :: byte] = 12"
proof -
  have q: "dotted_quad 10 0 0 7 = ''10.0.0.7''" by code_simp
  show ?thesis using full_payload_layout [of 10 0 0 7 8080] unfolding q by simp
qed

text \<open>
  C4 (as amended). Assembling the payload fails in the conversion of the address
  (\<^verbatim>\<open>socket.inet_aton\<close> raises: the specification's InvalidAddress) exactly when the
  string is not an address in the notation of inet(3), and for a port from 0 to 65535 it
  succeeds exactly when the string is one. Every dotted quad of four decimal octets
  written without leading zeros is such an address; \<^verbatim>\<open>not-an-ip\<close>,
  \<^verbatim>\<open>1.2.3.256\<close>, \<^verbatim>\<open>1.2.3.4.5\<close> and the empty string are not. The abbreviated
  \<^verbatim>\<open>127.1\<close> is one, and \<^verbatim>\<open>08.1.1.1\<close> is not, its first octet being read as octal.
\<close>

theorem full_payload_invalid_address:
  "((full_payload ip_str port = Inl OSError \<or> full_payload ip_str port = Inl ValueError)
      \<longleftrightarrow> \<not> inet_address ip_str)
   \<and> (0 \<le> port \<and> port \<le> 65535 \<longrightarrow>
        ((\<exists>payload. full_payload ip_str port = Inr payload) \<longleftrightarrow> inet_address ip_str))
   \<and> (a \<le> 255 \<and> b \<le> 255 \<and> c \<le> 255 \<and> d \<le> 255 \<longrightarrow> inet_address (dotted_quad a b c d))
   \<and> \<not> inet_address ''not-an-ip'' \<and> \<not> inet_address ''1.2.3.256''
   \<and> \<not> inet_address ''1.2.3.4.5'' \<and> \<not> inet_address []
   \<and> inet_address ''127.1'' \<and> \<not> inet_address ''08.1.1.1''"
proof -
  have q: "a \<le> 255 \<and> b \<le> 255 \<and> c \<le> 255 \<and> d \<le> 255 \<longrightarrow> inet_address (dotted_quad a b c d)"
    using inet_aton_dotted_quad [of a b c d] inet_aton_address [of "dotted_quad a b c d"] by auto
  have i: "\<not> inet_address ''not-an-ip''" "\<not> inet_address ''1.2.3.256''"
    "\<not> inet_address ''1.2.3.4.5''" "\<not> inet_address []"
    "inet_address ''127.1''" "\<not> inet_address ''08.1.1.1''"
    by (simp_all add: address_defs)
  show ?thesis
    using full_payload_address_error [of ip_str port] full_payload_address_ok [of port ip_str] q i
    by blast
qed

theorem full_payload_invalid_address_witness:
  "inet_address ''8.8.8.8''
   \<and> full_payload ''8.8.8.8'' 7000 \<noteq> Inl OSError
   \<and> (full_payload ''not-an-ip'' 7000 = Inl OSError \<or> full_payload ''not-an-ip'' 7000 = Inl ValueError)"
proof -
  have q: "dotted_quad 8 8 8 8 = ''8.8.8.8''" by code_simp
  show ?thesis
    using full_payload_invalid_address [of "''8.8.8.8''" 7000 8 8 8 8]
      full_payload_invalid_address [of "''not-an-ip''" 7000 8 8 8 8]
    unfolding q by simp
qed

text \<open>
  C4 as the specification states it does not hold: \<^verbatim>\<open>127.1\<close> has two components, not
  four, and the payload is assembled all the same; \<^verbatim>\<open>08.1.1.1\<close> is four decimal
  octets separated by dots, and the assembly fails.
\<close>

theorem full_payload_abbreviated_address:
  "splitc CHR ''.'' ''127.1'' = [''127'', ''1'']
   \<and> full_payload ''127.1'' 7000 =
       Inr [0x00, 0x4C, 0x09, 0x08, 0x13, 0x30, 127, 0, 0, 1, 0x1B, 0x58]
   \<and> splitc CHR ''.'' ''08.1.1.1'' = [''08'', ''1'', ''1'', ''1'']
   \<and> full_payload ''08.1.1.1'' 7000 = Inl OSError"
  by (simp add: payload_defs)

section \<open>Port resolution\<close>

subsection \<open>A first line of decimal digits\<close>

lemma unat_digit_byte:
  assumes "d < 10"
  shows "unat (of_nat (48 + d) :: byte) = 48 + d"
proof -
  have "unat (of_nat (48 + d) :: byte) = (48 + d) mod 2 ^ LENGTH(8)" by (rule unat_of_nat)
  with assms show ?thesis by simp
qed

lemma digit_byte_plain:
  assumes "d < 10"
  shows "(of_nat (48 + d) :: byte) \<noteq> 0x0A" and "(of_nat (48 + d) :: byte) \<noteq> 0x00"
    and "(of_nat (48 + d) :: byte) < 0x80"
proof -
  have u: "unat (of_nat (48 + d) :: byte) = 48 + d" using assms by (rule unat_digit_byte)
  show "(of_nat (48 + d) :: byte) \<noteq> 0x0A"
  proof
    assume "(of_nat (48 + d) :: byte) = 0x0A"
    then have "unat (of_nat (48 + d) :: byte) = unat (0x0A :: byte)" by (simp only:)
    with u show False by simp
  qed
  show "(of_nat (48 + d) :: byte) \<noteq> 0x00"
  proof
    assume "(of_nat (48 + d) :: byte) = 0x00"
    then have "unat (of_nat (48 + d) :: byte) = unat (0x00 :: byte)" by (simp only:)
    with u show False by simp
  qed
  show "(of_nat (48 + d) :: byte) < 0x80" using u assms by (simp add: word_less_nat_alt)
qed

lemma text_chunk_digits:
  assumes "list_all (\<lambda>d. d < 10) ds"
    and "rest = [] \<or> (\<exists>g. rest = 0x0A # g) \<or> (\<exists>g. rest = 0x00 # g)"
  shows "text_chunk (digit_bytes ds @ rest) = digit_bytes ds"
proof -
  have a: "\<forall>b \<in> set (digit_bytes ds). b \<noteq> 0x0A \<and> b \<noteq> 0x00"
    using assms(1) digit_byte_plain(1,2) by (auto simp add: digit_bytes_def list_all_iff)
  have n: "takeWhile (\<lambda>b. b \<noteq> 0x0A) (digit_bytes ds) = digit_bytes ds"
    and z: "takeWhile (\<lambda>b. b \<noteq> 0x00) (digit_bytes ds) = digit_bytes ds"
    using a by (simp_all add: takeWhile_eq_all_conv)
  from assms(2) consider "rest = []" | g where "rest = 0x0A # g" | g where "rest = 0x00 # g"
    by blast
  then show ?thesis
  proof cases
    case 1
    then show ?thesis by (simp add: text_chunk_def split_first_def n z)
  next
    case 2
    with a have "split_first 0x0A (digit_bytes ds @ rest) = digit_bytes ds"
      by (simp add: split_first_def takeWhile_append2)
    then show ?thesis by (simp add: text_chunk_def split_first_def z)
  next
    case 3
    with a have "split_first 0x0A (digit_bytes ds @ rest) = digit_bytes ds @ split_first 0x0A rest"
      by (simp add: split_first_def takeWhile_append2)
    with 3 a show ?thesis by (simp add: text_chunk_def split_first_def takeWhile_append2)
  qed
qed

lemma decode_ascii_digits:
  assumes "list_all (\<lambda>d. d < 10) ds"
  shows "decode_ascii (digit_bytes ds) = Inr (map (\<lambda>d. char_of (48 + d)) ds)"
proof -
  have "list_all (\<lambda>b. b < 0x80) (digit_bytes ds)"
    using assms digit_byte_plain(3) by (auto simp add: digit_bytes_def list_all_iff)
  moreover have "map (\<lambda>b. char_of (unat b)) (digit_bytes ds) = map (\<lambda>d. char_of (48 + d)) ds"
    using assms unat_digit_byte by (auto simp add: digit_bytes_def list_all_iff)
  ultimately show ?thesis by (simp add: decode_ascii_def)
qed

lemma isdigit_digits:
  assumes "list_all (\<lambda>d. d < 10) (ds :: nat list)" and "ds \<noteq> []"
  shows "isdigit (map (\<lambda>d. char_of (48 + d)) ds)"
  using assms by (auto simp add: isdigit_def list_all_iff of_char_digit)

lemma denoted_snoc: "denoted (ds @ [d]) = 10 * denoted ds + int d"
proof -
  have "(\<Sum>i<length ds. int ((ds @ [d]) ! i) * 10 ^ (length ds - i))
      = (\<Sum>i<length ds. 10 * (int (ds ! i) * 10 ^ (length ds - 1 - i)))"
  proof (rule sum.cong)
    fix i assume "i \<in> {..<length ds}"
    then have i: "i < length ds" by simp
    then have "length ds - i = Suc (length ds - 1 - i)" by simp
    then have "(10::int) ^ (length ds - i) = 10 * 10 ^ (length ds - 1 - i)" by simp
    with i show "int ((ds @ [d]) ! i) * 10 ^ (length ds - i) = 10 * (int (ds ! i) * 10 ^ (length ds - 1 - i))"
      by (simp add: nth_append)
  qed simp
  then show ?thesis by (simp add: denoted_def sum_distrib_left)
qed

lemma foldl_digits:
  assumes "list_all (\<lambda>d. d < 10) ds"
  shows "foldl (\<lambda>acc c. 10 * acc + (of_char c - 48)) 0 (map (\<lambda>d. char_of (48 + d)) ds) = denoted ds"
  using assms
proof (induction ds rule: rev_induct)
  case Nil
  show ?case by (simp add: denoted_def)
next
  case (snoc d ds)
  then have d: "d < 10" and ds: "list_all (\<lambda>d. d < 10) ds" by simp_all
  have "(of_char (char_of (48 + d)) :: int) = int (of_char (char_of (48 + d)))"
    by (rule of_nat_of_char [symmetric])
  then have "(of_char (char_of (48 + d)) :: int) = int (48 + d)"
    by (simp only: of_char_digit [OF d])
  with snoc.IH [OF ds] show ?case by (simp add: denoted_snoc)
qed

lemma py_int_digits:
  assumes "list_all (\<lambda>d. d < 10) ds"
  shows "py_int (map (\<lambda>d. char_of (48 + d)) ds) =
     (if length ds > max_str_digits then Inl ValueError else Inr (denoted ds))"
  using foldl_digits [OF assms] by (simp add: py_int_def)

lemma text_parse_digits:
  assumes "list_all (\<lambda>d. d < 10) ds" and "ds \<noteq> []"
    and "rest = [] \<or> (\<exists>g. rest = 0x0A # g) \<or> (\<exists>g. rest = 0x00 # g)"
  shows "text_parse (digit_bytes ds @ rest) =
     (if length ds > max_str_digits then None else Some (denoted ds))"
  using assms
  by (simp add: text_parse_def text_chunk_digits decode_ascii_digits isdigit_digits py_int_digits)

lemma binary_parse_digits:
  assumes "list_all (\<lambda>d. d < 10) ds" and "2 \<le> length ds"
  shows "binary_parse (digit_bytes ds @ rest) = Some (int ((48 + ds ! 0) * 256 + (48 + ds ! 1)))"
proof -
  from assms(2) obtain d0 d1 ds' where ds: "ds = d0 # d1 # ds'"
    by (cases ds; cases "tl ds") auto
  with assms(1) have d: "d0 < 10" "d1 < 10" by simp_all
  have u: "uint (of_nat (48 + d0) :: byte) = int (48 + d0)" "uint (of_nat (48 + d1) :: byte) = int (48 + d1)"
    using unat_digit_byte [OF d(1)] unat_digit_byte [OF d(2)] by (simp_all only: uint_nat)
  have up: "unpack_H (take 2 (digit_bytes ds @ rest)) = Inr (int (48 + d0) * 256 + int (48 + d1))"
    unfolding ds digit_bytes_def by (simp add: unpack_H_def u del: of_nat_add)
  have rng: "1024 \<le> int (48 + d0) * 256 + int (48 + d1)"
    "int (48 + d0) * 256 + int (48 + d1) \<le> 65535"
    using d by simp_all
  have eq: "int (48 + d0) * 256 + int (48 + d1) = int ((48 + ds ! 0) * 256 + (48 + ds ! 1))"
    unfolding ds by simp
  have len: "2 \<le> length (digit_bytes ds @ rest)" using assms(2) by (simp add: digit_bytes_def)
  show ?thesis
    unfolding binary_parse_def up using rng len by (simp only: eq [symmetric] if_True sum.case simp_thms)
qed

subsection \<open>The range of a resolved port, the binary parsing\<close>

lemma foldl_digits_nonneg:
  assumes "list_all (\<lambda>c. 48 \<le> (of_char c :: nat) \<and> (of_char c :: nat) \<le> 57) s" and "0 \<le> v"
  shows "0 \<le> foldl (\<lambda>acc c. 10 * acc + (of_char c - 48)) (v :: int) s"
  using assms
proof (induction s arbitrary: v)
  case Nil
  then show ?case by simp
next
  case (Cons c s)
  have "(of_char c :: int) = int (of_char c)" by (rule of_nat_of_char [symmetric])
  with Cons.prems(1) have "0 \<le> (of_char c :: int) - 48" by simp
  with Cons.prems(2) have "0 \<le> 10 * v + (of_char c - 48)" by simp
  with Cons show ?case by simp
qed

lemma text_parse_nonneg: "text_parse content = Some port \<Longrightarrow> 0 \<le> port"
  by (auto simp add: text_parse_def isdigit_def py_int_def foldl_digits_nonneg
      split: sum.splits if_splits)

lemma binary_parse_range: "binary_parse content = Some port \<Longrightarrow> 1024 \<le> port \<and> port \<le> 65535"
  by (auto simp add: binary_parse_def split: sum.splits if_splits)

lemma get_uxplay_port_Some:
  "get_uxplay_port path file = (out, Some port) \<longleftrightarrow>
     out = [] \<and> (\<exists>content. file = Some content \<and>
       (text_parse content = Some port \<or> text_parse content = None \<and> binary_parse content = Some port))"
  by (auto simp add: get_uxplay_port_def split: option.splits)

text \<open>
  C3 (as amended). A port that \<^verbatim>\<open>get_uxplay_port\<close> returns is never negative, and when
  the text parsing gave nothing, so that the binary parsing produced it, it lies between
  1024 and 65535. The text parsing checks no upper bound.
\<close>

theorem get_uxplay_port_range:
  assumes "get_uxplay_port path file = (out, Some port)"
  shows "0 \<le> port \<and>
    (\<forall>content. file = Some content \<and> text_parse content = None \<longrightarrow> 1024 \<le> port \<and> port \<le> 65535)"
proof -
  from assms obtain content where c: "file = Some content"
    and p: "text_parse content = Some port \<or> text_parse content = None \<and> binary_parse content = Some port"
    unfolding get_uxplay_port_Some by blast
  from p have "0 \<le> port" using text_parse_nonneg binary_parse_range by fastforce
  moreover from p c have "1024 \<le> port \<and> port \<le> 65535" if "file = Some content'" "text_parse content' = None" for content'
    using that binary_parse_range by fastforce
  ultimately show ?thesis by blast
qed

theorem get_uxplay_port_range_witness:
  "get_uxplay_port ''~/.uxplay.ble'' (Some [0x1F, 0x90]) = ([], Some 8080)
   \<and> text_parse [0x1F, 0x90] = None \<and> (0::int) \<le> 8080 \<and> (1024::int) \<le> 8080 \<and> (8080::int) \<le> 65535"
proof -
  have g: "get_uxplay_port ''~/.uxplay.ble'' (Some [0x1F, 0x90]) = ([], Some 8080)" by code_simp
  have t: "text_parse [0x1F, 0x90] = None" by code_simp
  show ?thesis using get_uxplay_port_range [OF g] g t by simp
qed

text \<open>
  C3 as the specification states it does not hold: the file content \<^verbatim>\<open>70000\<close> resolves
  to the port 70000, above 65535.
\<close>

theorem get_uxplay_port_above_65535:
  "get_uxplay_port ''~/.uxplay.ble'' (Some [0x37, 0x30, 0x30, 0x30, 0x30]) = ([], Some 70000)
   \<and> \<not> (70000::int) \<le> 65535"
  by code_simp

lemma unpack_H_take2:
  "2 \<le> length content \<Longrightarrow> unpack_H (take 2 content) = Inr (uint (content ! 0) * 256 + uint (content ! 1))"
  by (cases content; cases "tl content") (auto simp add: unpack_H_def)

text \<open>
  C6. When the text parsing gives nothing and the content has at least two bytes, the
  first two bytes are read as a big-endian unsigned 16-bit integer, which is returned
  when it lies between 1024 and 65535; otherwise the resolution fails with the message
  that the port could not be parsed. The bytes 1F 90 resolve to 8080, the bytes 00 50
  (the value 80) fail. The text parsing comes first: what it yields is returned as it is,
  whatever the binary parsing would give.
\<close>

theorem get_uxplay_port_binary:
  "(text_parse content = None \<and> 2 \<le> length content \<longrightarrow>
      get_uxplay_port path (Some content) =
        (if 1024 \<le> uint (content ! 0) * 256 + uint (content ! 1)
            \<and> uint (content ! 0) * 256 + uint (content ! 1) \<le> 65535
         then ([], Some (uint (content ! 0) * 256 + uint (content ! 1)))
         else ([CouldNotParse], None)))
   \<and> (text_parse content = Some port \<longrightarrow> get_uxplay_port path (Some content) = ([], Some port))
   \<and> get_uxplay_port path (Some [0x1F, 0x90]) = ([], Some 8080)
   \<and> get_uxplay_port path (Some [0x00, 0x50]) = ([CouldNotParse], None)"
proof -
  have "get_uxplay_port path (Some [0x1F, 0x90]) = ([], Some 8080)" by code_simp
  moreover have "get_uxplay_port path (Some [0x00, 0x50]) = ([CouldNotParse], None)" by code_simp
  moreover have "text_parse content = Some port \<longrightarrow> get_uxplay_port path (Some content) = ([], Some port)"
    by (simp add: get_uxplay_port_def)
  moreover have "text_parse content = None \<and> 2 \<le> length content \<longrightarrow>
      get_uxplay_port path (Some content) =
        (if 1024 \<le> uint (content ! 0) * 256 + uint (content ! 1)
            \<and> uint (content ! 0) * 256 + uint (content ! 1) \<le> 65535
         then ([], Some (uint (content ! 0) * 256 + uint (content ! 1)))
         else ([CouldNotParse], None))"
    by (simp add: get_uxplay_port_def binary_parse_def unpack_H_take2)
  ultimately show ?thesis by blast
qed

theorem get_uxplay_port_binary_witness:
  "get_uxplay_port ''~/.uxplay.ble'' (Some [0xC0, 0x00, 0x0A]) = ([], Some 49152)
   \<and> get_uxplay_port ''~/.uxplay.ble'' (Some [0x31, 0x32]) = ([], Some 12)
   \<and> binary_parse [0x31, 0x32] = Some 12594"
proof -
  have t: "text_parse [0xC0, 0x00, 0x0A] = None" by code_simp
  have u: "text_parse [0x31, 0x32] = Some 12" by code_simp
  have b: "binary_parse [0x31, 0x32] = Some 12594" by code_simp
  show ?thesis
    using get_uxplay_port_binary [of "[0xC0, 0x00, 0x0A]" "''~/.uxplay.ble''" 0]
      get_uxplay_port_binary [of "[0x31, 0x32]" "''~/.uxplay.ble''" 12] t u b
    by simp
qed

subsection \<open>The text parsing, failures, the port 0\<close>

lemma get_uxplay_port_digits:
  assumes "list_all (\<lambda>d. d < 10) ds" and "ds \<noteq> []"
    and "rest = [] \<or> (\<exists>g. rest = 0x0A # g) \<or> (\<exists>g. rest = 0x00 # g)"
  shows "get_uxplay_port path (Some (digit_bytes ds @ rest)) =
     (if length ds \<le> 4300 then ([], Some (denoted ds))
      else ([], Some (int ((48 + ds ! 0) * 256 + (48 + ds ! 1)))))"
proof (cases "length ds \<le> 4300")
  case True
  with assms show ?thesis
    by (simp add: get_uxplay_port_def text_parse_digits max_str_digits_def)
next
  case False
  then have "2 \<le> length ds" by simp
  with assms(1) have "binary_parse (digit_bytes ds @ rest) =
      Some (int ((48 + ds ! 0) * 256 + (48 + ds ! 1)))"
    by (rule binary_parse_digits)
  with False assms show ?thesis
    by (simp add: get_uxplay_port_def text_parse_digits max_str_digits_def)
qed

lemma list_all_replicate: "d < 10 \<Longrightarrow> list_all (\<lambda>d. d < 10) (replicate n (d::nat))"
  by (simp add: list_all_iff)

lemma digit_bytes_replicate: "digit_bytes (replicate n d) = replicate n (of_nat (48 + d))"
  by (simp add: digit_bytes_def)

lemma denoted_replicate_0: "denoted (replicate n 0) = 0"
  by (simp add: denoted_def)

text \<open>
  C5 (as amended). When the content starts with the ASCII bytes of a non-empty list of
  decimal digits and these are the whole content, or a newline or a null byte follows
  them, the digits are the first line. When they are at most 4300,
  \<^verbatim>\<open>get_uxplay_port\<close> returns the integer they denote, with no upper bound on its
  value and whatever bytes follow. When they are more than 4300, \<^verbatim>\<open>int\<close> raises, the
  text parsing swallows the exception, and the binary parsing answers: the port is the
  big-endian value of the first two bytes.
\<close>

theorem get_uxplay_port_text:
  assumes "list_all (\<lambda>d. d < 10) ds" and "ds \<noteq> []"
    and "rest = [] \<or> (\<exists>g. rest = 0x0A # g) \<or> (\<exists>g. rest = 0x00 # g)"
  shows "text_chunk (digit_bytes ds @ rest) = digit_bytes ds
     \<and> (length ds \<le> 4300 \<longrightarrow>
          get_uxplay_port path (Some (digit_bytes ds @ rest)) = ([], Some (denoted ds)))
     \<and> (4300 < length ds \<longrightarrow>
          get_uxplay_port path (Some (digit_bytes ds @ rest)) =
            ([], Some (int ((48 + ds ! 0) * 256 + (48 + ds ! 1)))))"
  using assms by (simp add: get_uxplay_port_digits text_chunk_digits)

theorem get_uxplay_port_text_witness:
  "get_uxplay_port ''~/.uxplay.ble'' (Some [0x37, 0x30, 0x30, 0x30, 0x30, 0x0A, 0xFF, 0x00, 0x41]) = ([], Some 70000)
   \<and> get_uxplay_port ''~/.uxplay.ble'' (Some [0x30, 0x30, 0x37, 0x00, 0x39]) = ([], Some 7)
   \<and> get_uxplay_port ''~/.uxplay.ble'' (Some (replicate 4301 0x37 @ [0x0A])) = ([], Some 14135)"
proof -
  have d: "digit_bytes [7, 0, 0, 0, 0] = [0x37, 0x30, 0x30, 0x30, 0x30]" "denoted [7, 0, 0, 0, 0] = 70000"
    "digit_bytes [0, 0, 7] = [0x30, 0x30, 0x37]" "denoted [0, 0, 7] = 7"
    by code_simp+
  have r: "list_all (\<lambda>d. d < 10) (replicate 4301 (7::nat))"
    "digit_bytes (replicate 4301 7) = replicate 4301 0x37"
    using list_all_replicate [of 7 4301] digit_bytes_replicate [of 4301 7] by simp_all
  show ?thesis
    using get_uxplay_port_text [of "[7, 0, 0, 0, 0]" "[0x0A, 0xFF, 0x00, 0x41]" "''~/.uxplay.ble''"]
      get_uxplay_port_text [of "[0, 0, 7]" "[0x00, 0x39]" "''~/.uxplay.ble''"]
      get_uxplay_port_text [OF r(1), of "[0x0A]" "''~/.uxplay.ble''"]
    unfolding d r(2) by simp
qed

text \<open>
  C5 as the specification states it does not hold: a file of 4301 zeros is a line of
  decimal digits that denotes 0, and it resolves to 12336, the bytes 30 30 read as a
  big-endian integer.
\<close>

theorem get_uxplay_port_4301_zeros:
  "text_chunk (replicate 4301 0x30) = replicate 4301 0x30
   \<and> digit_bytes (replicate 4301 0) = replicate 4301 0x30
   \<and> denoted (replicate 4301 0) = 0
   \<and> get_uxplay_port ''~/.uxplay.ble'' (Some (replicate 4301 0x30)) = ([], Some 12336)"
proof -
  have r: "list_all (\<lambda>d. d < 10) (replicate 4301 (0::nat))"
    "digit_bytes (replicate 4301 0) = replicate 4301 0x30"
    using list_all_replicate [of 0 4301] digit_bytes_replicate [of 4301 0] by simp_all
  have n: "replicate 4301 (0::nat) \<noteq> []" by simp
  have "text_chunk (digit_bytes (replicate 4301 0) @ []) = digit_bytes (replicate 4301 0)"
    using r(1) by (rule text_chunk_digits) simp
  moreover have "get_uxplay_port ''~/.uxplay.ble'' (Some (digit_bytes (replicate 4301 0) @ [])) =
      ([], Some 12336)"
    using get_uxplay_port_digits [OF r(1) n, of "[]" "''~/.uxplay.ble''"] by simp
  ultimately show ?thesis using denoted_replicate_0 [of 4301] by (simp add: r(2))
qed

text \<open>
  C7. \<^verbatim>\<open>get_uxplay_port\<close> fails (returns \<^verbatim>\<open>None\<close>) with the message that the file was
  not found when the path does not exist, and with the message that the port could not be
  parsed when the file exists and neither parsing yields a value; these are its only
  failures. After a failure \<^verbatim>\<open>start_advertising\<close> prints its own failure message and
  exits with status 1, and no advertisement is started. Every advertisement that is
  started carries, in its last two bytes, a port that was resolved.
\<close>

theorem port_failure_terminal:
  "get_uxplay_port path None = ([NotFound path], None)
   \<and> (text_parse content = None \<and> binary_parse content = None \<longrightarrow>
        get_uxplay_port path (Some content) = ([CouldNotParse], None))
   \<and> (snd (get_uxplay_port path file) = None \<longrightarrow>
        (file = None \<or> (\<exists>c. file = Some c \<and> text_parse c = None \<and> binary_parse c = None))
        \<and> start_advertising path file probe_a probe_b =
            (fst (get_uxplay_port path file) @ [FailedToGetPort], Exit 1))
   \<and> (start_advertising path file probe_a probe_b = (out, Advertising name payload) \<longrightarrow>
        (\<exists>port. snd (get_uxplay_port path file) = Some port \<and> port \<noteq> 0
           \<and> pack_H port = Inr (drop 10 payload)))"
proof -
  have 1: "get_uxplay_port path None = ([NotFound path], None)"
    by (simp add: get_uxplay_port_def)
  have 2: "text_parse content = None \<and> binary_parse content = None \<longrightarrow>
        get_uxplay_port path (Some content) = ([CouldNotParse], None)"
    by (simp add: get_uxplay_port_def)
  have 3: "snd (get_uxplay_port path file) = None \<longrightarrow>
        (file = None \<or> (\<exists>c. file = Some c \<and> text_parse c = None \<and> binary_parse c = None))
        \<and> start_advertising path file probe_a probe_b =
            (fst (get_uxplay_port path file) @ [FailedToGetPort], Exit 1)"
    by (auto simp add: get_uxplay_port_def start_advertising_def split: option.splits)
  have 4: "start_advertising path file probe_a probe_b = (out, Advertising name payload) \<longrightarrow>
        (\<exists>port. snd (get_uxplay_port path file) = Some port \<and> port \<noteq> 0
           \<and> pack_H port = Inr (drop 10 payload))"
  proof
    assume a: "start_advertising path file probe_a probe_b = (out, Advertising name payload)"
    obtain o1 p where g: "get_uxplay_port path file = (o1, p)" by (cases "get_uxplay_port path file")
    from a g obtain port where p: "p = Some port" "port \<noteq> 0"
      and f: "full_payload (get_best_ip probe_a probe_b) port = Inr payload"
      by (auto simp add: start_advertising_def Let_def split: option.splits if_splits sum.splits)
    from f have "pack_H port = Inr (drop 10 payload)" using full_payload_Inr by blast
    with g p show "\<exists>port. snd (get_uxplay_port path file) = Some port \<and> port \<noteq> 0
           \<and> pack_H port = Inr (drop 10 payload)" by simp
  qed
  from 1 2 3 4 show ?thesis by blast
qed

theorem port_failure_terminal_witness:
  "start_advertising ''~/.uxplay.ble'' None (Inr ''192.168.1.42'') (Inl OSError)
     = ([NotFound ''~/.uxplay.ble'', FailedToGetPort], Exit 1)
   \<and> start_advertising ''~/.uxplay.ble'' (Some [0x00, 0x50]) (Inr ''192.168.1.42'') (Inl OSError)
     = ([CouldNotParse, FailedToGetPort], Exit 1)
   \<and> get_uxplay_port ''~/.uxplay.ble'' (Some [0x37, 0x30, 0x30, 0x30]) = ([], Some 7000)
   \<and> pack_H 7000 = Inr [0x1B, 0x58]"
proof -
  have t: "text_parse [0x00, 0x50] = None" "binary_parse [0x00, 0x50] = None" by code_simp+
  have g: "get_uxplay_port ''~/.uxplay.ble'' (Some [0x37, 0x30, 0x30, 0x30]) = ([], Some 7000)"
    by code_simp
  have b: "get_best_ip (Inr ''192.168.1.42'') (Inl OSError) = ''192.168.1.42''"
    by (simp add: get_best_ip_def attempt1_def)
  have f: "full_payload ''192.168.1.42'' 7000 =
     Inr [0x00, 0x4C, 0x09, 0x08, 0x13, 0x30, 0xC0, 0xA8, 0x01, 0x2A, 0x1B, 0x58]"
    by (simp add: payload_defs)
  have s: "start_advertising ''~/.uxplay.ble'' (Some [0x37, 0x30, 0x30, 0x30]) (Inr ''192.168.1.42'') (Inl OSError)
    = ([Broadcasting ''192.168.1.42'' 7000, BeaconActive],
       Advertising ''UxPlay'' [0x00, 0x4C, 0x09, 0x08, 0x13, 0x30, 0xC0, 0xA8, 0x01, 0x2A, 0x1B, 0x58])"
    by (simp add: start_advertising_def g b f)
  show ?thesis
    using port_failure_terminal [of "''~/.uxplay.ble''" "[0x00, 0x50]" None "Inr ''192.168.1.42''" "Inl OSError"]
      port_failure_terminal [of "''~/.uxplay.ble''" "[0x00, 0x50]" "Some [0x00, 0x50]" "Inr ''192.168.1.42''" "Inl OSError"]
      port_failure_terminal [of "''~/.uxplay.ble''" "[0x00, 0x50]" "Some [0x37, 0x30, 0x30, 0x30]"
        "Inr ''192.168.1.42''" "Inl OSError" "[Broadcasting ''192.168.1.42'' 7000, BeaconActive]" "''UxPlay''"
        "[0x00, 0x4C, 0x09, 0x08, 0x13, 0x30, 0xC0, 0xA8, 0x01, 0x2A, 0x1B, 0x58]"]
      t g s
    by simp
qed

text \<open>
  C10. When the first line of the port file is the ASCII text \<^verbatim>\<open>0\<close>,
  \<^verbatim>\<open>get_uxplay_port\<close> succeeds with the port 0 and prints nothing, yet
  \<^verbatim>\<open>start_advertising\<close> takes the value 0 for a failure: it prints its failure message
  and exits with status 1 without advertising.
\<close>

theorem port_zero_exits:
  assumes "text_chunk content = [0x30]"
  shows "get_uxplay_port path (Some content) = ([], Some 0)
     \<and> start_advertising path (Some content) probe_a probe_b = ([FailedToGetPort], Exit 1)"
proof -
  have "decode_ascii [0x30] = Inr ''0''" by code_simp
  moreover have "isdigit ''0''" "py_int ''0'' = Inr 0" by code_simp+
  ultimately have "text_parse content = Some 0" using assms by (simp add: text_parse_def)
  then have "get_uxplay_port path (Some content) = ([], Some 0)" by (simp add: get_uxplay_port_def)
  then show ?thesis by (simp add: start_advertising_def)
qed

theorem port_zero_exits_witness:
  "get_uxplay_port ''~/.uxplay.ble'' (Some [0x30, 0x0A]) = ([], Some 0)
   \<and> start_advertising ''~/.uxplay.ble'' (Some [0x30, 0x0A]) (Inr ''192.168.1.42'') (Inr [''192.168.1.42''])
       = ([FailedToGetPort], Exit 1)"
proof -
  have t: "text_chunk [0x30, 0x0A] = [0x30]" by code_simp
  show ?thesis by (rule port_zero_exits [OF t])
qed

section \<open>Address selection\<close>

lemma filter_useful_find:
  "filter_useful ip_list =
     find (\<lambda>ip. startswith ip ''192.168.'' \<or> startswith ip ''10.'' \<or> startswith ip ''172.'') ip_list"
  by (induction ip_list) auto

lemma first_non_loopback_find:
  "first_non_loopback ip_list = find (\<lambda>ip. ip \<noteq> ''127.0.0.1'') ip_list"
  by (induction ip_list) auto

lemma filter_useful_mem: "filter_useful ip_list = Some ip \<Longrightarrow> ip \<in> set ip_list"
  by (induction ip_list) (auto split: if_splits)

lemma first_non_loopback_mem: "first_non_loopback ip_list = Some ip \<Longrightarrow> ip \<in> set ip_list"
  by (induction ip_list) (auto split: if_splits)

lemma only_loopback:
  "list_all (\<lambda>ip. ip = ''127.0.0.1'') ip_list \<Longrightarrow>
     filter_useful ip_list = None \<and> first_non_loopback ip_list = None"
  by (induction ip_list) (auto simp add: startswith_def)

text \<open>
  C2 (as amended). When the outbound-route probe yields nothing, the enumerated addresses
  are scanned in the order of the enumeration, and the first one that starts with
  \<^verbatim>\<open>192.168.\<close>, \<^verbatim>\<open>10.\<close> or \<^verbatim>\<open>172.\<close> is returned, whichever of the three prefixes
  it has. When there is none, the first address that is not 127.0.0.1 is returned, and
  when there is none either, 127.0.0.1.
\<close>

theorem get_best_ip_enumeration:
  assumes "probe_a = Inl e \<or> probe_a = Inr ''127.0.0.1''"
  shows "get_best_ip probe_a (Inr ip_list) =
     (case find (\<lambda>ip. startswith ip ''192.168.'' \<or> startswith ip ''10.'' \<or> startswith ip ''172.'')
             ip_list of
        Some ip \<Rightarrow> ip
      | None \<Rightarrow>
          (case find (\<lambda>ip. ip \<noteq> ''127.0.0.1'') ip_list of
             Some ip \<Rightarrow> ip
           | None \<Rightarrow> ''127.0.0.1''))"
proof -
  from assms have "attempt1 probe_a = None" by (auto simp add: attempt1_def)
  then show ?thesis
    by (simp add: get_best_ip_def attempt2_def filter_useful_find first_non_loopback_find
        split: option.splits)
qed

theorem get_best_ip_enumeration_witness:
  "get_best_ip (Inr ''127.0.0.1'') (Inr [''127.0.0.1'', ''8.8.4.4'', ''192.168.1.2'', ''10.0.0.5''])
     = ''192.168.1.2''
   \<and> get_best_ip (Inl OSError) (Inr [''127.0.0.1'', ''8.8.4.4'', ''172.99.0.1'', ''192.168.1.2''])
     = ''172.99.0.1''
   \<and> get_best_ip (Inl OSError) (Inr [''127.0.0.1'', ''8.8.4.4'']) = ''8.8.4.4''"
  using get_best_ip_enumeration [of "Inr ''127.0.0.1''" OSError "[''127.0.0.1'', ''8.8.4.4'', ''192.168.1.2'', ''10.0.0.5'']"]
    get_best_ip_enumeration [of "Inl OSError" OSError "[''127.0.0.1'', ''8.8.4.4'', ''172.99.0.1'', ''192.168.1.2'']"]
    get_best_ip_enumeration [of "Inl OSError" OSError "[''127.0.0.1'', ''8.8.4.4'']"]
  by (simp add: startswith_def)

text \<open>
  C2 as the specification states it does not hold: when a 10.x address is enumerated
  before a 192.168.x address, the 10.x address is returned.
\<close>

theorem get_best_ip_enumeration_order:
  "get_best_ip (Inl OSError) (Inr [''10.0.0.5'', ''192.168.1.2'']) = ''10.0.0.5''"
  by (simp add: get_best_ip_def attempt1_def attempt2_def startswith_def)

text \<open>
  C8. \<^verbatim>\<open>get_best_ip\<close> returns an address whatever the two probes do, also when they
  raise: the address of the outbound-route probe, one of the enumerated addresses, or
  127.0.0.1. When both probes raise it returns 127.0.0.1, and so it does whenever both
  yield nothing (the first raises or gives 127.0.0.1, the second raises or enumerates
  nothing but 127.0.0.1).
\<close>

theorem get_best_ip_total:
  "(probe_a = Inr (get_best_ip probe_a probe_b)
      \<or> (\<exists>ip_list. probe_b = Inr ip_list \<and> get_best_ip probe_a probe_b \<in> set ip_list)
      \<or> get_best_ip probe_a probe_b = ''127.0.0.1'')
   \<and> get_best_ip (Inl e) (Inl e') = ''127.0.0.1''
   \<and> ((probe_a = Inl e \<or> probe_a = Inr ''127.0.0.1'')
        \<and> (probe_b = Inl e' \<or> (\<exists>ip_list. probe_b = Inr ip_list \<and> list_all (\<lambda>ip. ip = ''127.0.0.1'') ip_list))
        \<longrightarrow> get_best_ip probe_a probe_b = ''127.0.0.1'')"
proof -
  have 1: "probe_a = Inr (get_best_ip probe_a probe_b)
      \<or> (\<exists>ip_list. probe_b = Inr ip_list \<and> get_best_ip probe_a probe_b \<in> set ip_list)
      \<or> get_best_ip probe_a probe_b = ''127.0.0.1''"
    by (auto simp add: get_best_ip_def attempt1_def attempt2_def
        split: option.splits sum.splits if_splits
        dest: filter_useful_mem first_non_loopback_mem)
  have 2: "get_best_ip (Inl e) (Inl e') = ''127.0.0.1''"
    by (simp add: get_best_ip_def attempt1_def attempt2_def)
  have 3: "(probe_a = Inl e \<or> probe_a = Inr ''127.0.0.1'')
        \<and> (probe_b = Inl e' \<or> (\<exists>ip_list. probe_b = Inr ip_list \<and> list_all (\<lambda>ip. ip = ''127.0.0.1'') ip_list))
        \<longrightarrow> get_best_ip probe_a probe_b = ''127.0.0.1''"
    by (auto simp add: get_best_ip_def attempt1_def attempt2_def only_loopback)
  from 1 2 3 show ?thesis by blast
qed

theorem get_best_ip_total_witness:
  "get_best_ip (Inl OSError) (Inr [''127.0.0.1'']) = ''127.0.0.1''
   \<and> get_best_ip (Inr ''127.0.0.1'') (Inl OSError) = ''127.0.0.1''"
  using get_best_ip_total [of "Inl OSError" "Inr [''127.0.0.1'']" OSError OSError]
    get_best_ip_total [of "Inr ''127.0.0.1''" "Inl OSError" OSError OSError]
  by simp

end
